theory Spec2Isabelle
  imports Main "HOL-Library.Sublist" "HOL-Library.AList"
begin

section \<open>The profanity filter (profanity\_filter.py)\<close>

text \<open>
  Text is a \<^typ>\<open>string\<close>: a list of 8-bit characters, read as the code points
  U+0000 to U+00FF. An argument that may be \<^verbatim>\<open>None\<close> is a \<^typ>\<open>string option\<close>.
\<close>

subsection \<open>Constants of the module\<close>

text \<open>
  \<^verbatim>\<open>BLOCKED_WORDS\<close> is a Python set. Its elements are listed here in the order of the
  source; the set itself is \<open>BLOCKED_WORDS\<close>. The order in which Python iterates over
  a set of strings is not fixed by the source, so the functions that iterate over it take
  the iteration order as an argument.
\<close>

definition BLOCKED_WORDS_list :: "string list" where
  "BLOCKED_WORDS_list =
    [''ass'', ''arse'', ''asshole'', ''bastard'', ''bitch'', ''bloody'', ''bollocks'',
     ''bugger'', ''bullshit'', ''crap'', ''damn'', ''dick'', ''dickhead'',
     ''fag'', ''faggot'', ''fuck'', ''fucking'', ''fucker'', ''goddam'', ''goddamn'',
     ''hell'', ''homo'', ''jerk'', ''moron'', ''nigger'', ''nigga'', ''piss'', ''prick'',
     ''pussy'', ''retard'', ''shit'', ''shitty'', ''slut'', ''twat'', ''wanker'', ''whore'',
     ''nazi'', ''hitler'', ''kkk'', ''racist'',
     ''anal'', ''boob'', ''boobs'', ''breast'', ''cock'', ''cum'', ''dildo'', ''penis'',
     ''porn'', ''sex'', ''sexy'', ''vagina'', ''xxx'',
     ''cocaine'', ''heroin'', ''meth'', ''crack'',
     ''kill'', ''murder'', ''rape'', ''terrorist'']"

definition BLOCKED_WORDS :: "string set" where
  "BLOCKED_WORDS = set BLOCKED_WORDS_list"

text \<open>\<^verbatim>\<open>LEET_SPEAK_MAP\<close>, a dict, in its insertion order.\<close>

definition LEET_SPEAK_MAP :: "(char \<times> char) list" where
  "LEET_SPEAK_MAP =
    [(CHR ''0'', CHR ''o''), (CHR ''1'', CHR ''i''), (CHR ''3'', CHR ''e''),
     (CHR ''4'', CHR ''a''), (CHR ''5'', CHR ''s''), (CHR ''7'', CHR ''t''),
     (CHR ''8'', CHR ''b''), (CHR ''@'', CHR ''a''), (CHR ''$'', CHR ''s''),
     (CHR ''!'', CHR ''i''), (CHR ''+'', CHR ''t'')]"

subsection \<open>The string methods the module calls\<close>

text \<open>
  \<^verbatim>\<open>str.lower\<close> on the code points below U+0100: the upper-case letters are A to Z
  (65 to 90) and U+00C0 to U+00DE without the multiplication sign U+00D7; each moves up
  by 32. Every other character is unchanged.
\<close>

definition lower_char :: "char \<Rightarrow> char" where
  "lower_char c =
    (let n = (of_char c :: nat) in
     if (65 \<le> n \<and> n \<le> 90) \<or> (192 \<le> n \<and> n \<le> 222 \<and> n \<noteq> 215)
     then char_of (n + 32) else c)"

definition py_lower :: "string \<Rightarrow> string" where
  "py_lower s = map lower_char s"

text \<open>\<^verbatim>\<open>s.replace(old, new)\<close> where \<open>old\<close> and \<open>new\<close> are single characters.\<close>

definition py_replace :: "char \<Rightarrow> char \<Rightarrow> string \<Rightarrow> string" where
  "py_replace old new s = map (\<lambda>c. if c = old then new else c) s"

text \<open>The character class \<^verbatim>\<open>[a-z]\<close> of the regular expression.\<close>

definition is_a_to_z :: "char \<Rightarrow> bool" where
  "is_a_to_z c = (97 \<le> (of_char c :: nat) \<and> (of_char c :: nat) \<le> 122)"

text \<open>
  \<^verbatim>\<open>str.isspace\<close> on one character below U+0100: tab to carriage return, the four
  separators U+001C to U+001F, the space, U+0085 and U+00A0.
\<close>

definition is_space :: "char \<Rightarrow> bool" where
  "is_space c =
    (let n = (of_char c :: nat) in
     (9 \<le> n \<and> n \<le> 13) \<or> (28 \<le> n \<and> n \<le> 32) \<or> n = 133 \<or> n = 160)"

text \<open>
  \<^verbatim>\<open>s.split()\<close> with no argument: the maximal runs of characters that are not white
  space, in order; no empty word is returned. \<open>cur\<close> is the word being read.
\<close>

fun split_ws :: "string \<Rightarrow> string \<Rightarrow> string list" where
  "split_ws cur [] = (if cur = [] then [] else [cur])"
| "split_ws cur (c # cs) =
    (if is_space c
     then (if cur = [] then split_ws [] cs else cur # split_ws [] cs)
     else split_ws (cur @ [c]) cs)"

definition py_split :: "string \<Rightarrow> string list" where
  "py_split s = split_ws [] s"

text \<open>\<^verbatim>\<open>word in normalized\<close> on strings: \<open>word\<close> occurs as a contiguous run.\<close>

definition py_in :: "string \<Rightarrow> string \<Rightarrow> bool" where
  "py_in word s = sublist word s"

subsection \<open>normalize\_text\<close>

definition normalize_text :: "string option \<Rightarrow> string" where
  "normalize_text text =
    (case text of
       None \<Rightarrow> []
     | Some t \<Rightarrow>
        if t = [] then []
        else
          let normalized = py_lower t;
              normalized = fold (\<lambda>(leet_char, normal_char) s. py_replace leet_char normal_char s)
                             LEET_SPEAK_MAP normalized;
              alpha_only = filter is_a_to_z normalized
          in alpha_only)"

subsection \<open>contains\_profanity\<close>

text \<open>
  \<open>blocked\<close> is the order in which the loop \<^verbatim>\<open>for word in BLOCKED_WORDS\<close> visits the
  set. The first loop returns at the first word that occurs in the normalized text; the
  second loop returns at the first word of the lower-cased text whose normalization is a
  member of the set.
\<close>

definition contains_profanity :: "string list \<Rightarrow> string option \<Rightarrow> bool \<times> string option" where
  "contains_profanity blocked text =
    (case text of
       None \<Rightarrow> (False, None)
     | Some t \<Rightarrow>
        if t = [] then (False, None)
        else
          let normalized = normalize_text (Some t) in
          (case find (\<lambda>word. py_in word normalized) blocked of
             Some word \<Rightarrow> (True, Some word)
           | None \<Rightarrow>
              let words = py_split (py_lower t) in
              (case find (\<lambda>normalized_word. normalized_word \<in> set blocked)
                         (map (\<lambda>original_word. normalize_text (Some original_word)) words) of
                 Some normalized_word \<Rightarrow> (True, Some normalized_word)
               | None \<Rightarrow> (False, None))))"

subsection \<open>check\_all\_fields\<close>

text \<open>
  The keyword arguments arrive as a dict in the order the caller wrote them: a list of
  pairs of field name and text. The result is
  \<^verbatim>\<open>(is_clean, field_name or None, matched_word or None)\<close>.
\<close>

fun check_all_fields ::
  "string list \<Rightarrow> (string \<times> string option) list \<Rightarrow> bool \<times> string option \<times> string option" where
  "check_all_fields blocked [] = (True, None, None)"
| "check_all_fields blocked ((field_name, text) # fields) =
    (let (has_profanity, matched) = contains_profanity blocked text in
     if has_profanity then (False, Some field_name, matched)
     else check_all_fields blocked fields)"

subsection \<open>Auxiliary notions for the proofs\<close>

text \<open>What \<open>normalize_text\<close> does to one character before the filter.\<close>

definition norm_char :: "char \<Rightarrow> char" where
  "norm_char c =
     fold (\<lambda>(leet_char, normal_char) d. if d = leet_char then normal_char else d)
       LEET_SPEAK_MAP (lower_char c)"

definition is_upper_code :: "nat \<Rightarrow> bool" where
  "is_upper_code n = ((65 \<le> n \<and> n \<le> 90) \<or> (192 \<le> n \<and> n \<le> 222 \<and> n \<noteq> 215))"

section \<open>The data store (data\_store.py)\<close>

subsection \<open>The persisted document\<close>

text \<open>
  A Python dict is an association list with distinct keys, in insertion order:
  \<^verbatim>\<open>d[k] = v\<close> is \<^const>\<open>AList.update\<close> (an existing key keeps its place, a new
  one goes to the end), \<^verbatim>\<open>d.get(k)\<close> is \<^const>\<open>map_of\<close> and \<^verbatim>\<open>len(d)\<close> is
  \<^const>\<open>length\<close>. One certificate entry is a dict whose values are strings or
  \<^verbatim>\<open>None\<close> (JSON \<^verbatim>\<open>null\<close>).
\<close>

type_synonym cert_data = "(string \<times> string option) list"

record stats_doc =
  total_school_certificates :: int
  total_student_certificates :: int

record data =
  school_certificates :: "(string \<times> cert_data) list"
  student_certificates :: "(string \<times> cert_data) list"
  stats :: stats_doc

text \<open>The default structure that \<^verbatim>\<open>_load_data\<close> returns.\<close>

definition default_data :: data where
  "default_data =
    \<lparr>school_certificates = [], student_certificates = [],
     stats = \<lparr>total_school_certificates = 0, total_student_certificates = 0\<rparr>\<rparr>"

subsection \<open>The file\<close>

text \<open>
  The exceptions that reading can raise: the two that \<^verbatim>\<open>_load_data\<close> names in its
  \<^verbatim>\<open>except\<close> clause (\<^verbatim>\<open>IOError\<close> is Python's \<^verbatim>\<open>OSError\<close>, which covers
  permission and disk errors) and any other one.

  The state of \<^verbatim>\<open>DATA_FILE\<close>: it does not exist; or it exists and
  \<^verbatim>\<open>json.load\<close> returns a document; or it exists and opening or loading it raises.
  Creating the data directory and writing always succeed in this model, and the clock is
  an argument \<open>now\<close>
  (the value of \<^verbatim>\<open>datetime.now().isoformat()\<close>). The lock is not modelled: every
  operation runs alone.
\<close>

datatype exn = JSONDecodeError | IOError | OtherError

datatype file_state = Missing | Holds data | Unreadable exn

definition load_data :: "file_state \<Rightarrow> exn + data" where
  "load_data fs =
    (case fs of
       Missing \<Rightarrow> Inr default_data
     | Holds d \<Rightarrow> Inr d
     | Unreadable e \<Rightarrow>
        if e = JSONDecodeError \<or> e = IOError then Inr default_data else Inl e)"

definition save_data :: "data \<Rightarrow> file_state \<Rightarrow> file_state" where
  "save_data d fs = Holds d"

subsection \<open>Recording certificates\<close>

definition record_school_certificate ::
  "string \<Rightarrow> string \<Rightarrow> string option \<Rightarrow> string \<Rightarrow> file_state \<Rightarrow> exn + file_state" where
  "record_school_certificate cert_id school_name region now fs =
    (case load_data fs of
       Inl e \<Rightarrow> Inl e
     | Inr d \<Rightarrow>
        let certs = AList.update cert_id
                      [(''school_name'', Some school_name), (''region'', region), (''date'', Some now)]
                      (school_certificates d);
            d = d\<lparr>school_certificates := certs\<rparr>;
            d = d\<lparr>stats := (stats d)\<lparr>total_school_certificates :=
                                         int (length (school_certificates d))\<rparr>\<rparr>
        in Inr (save_data d fs))"

definition record_student_certificate ::
  "string \<Rightarrow> string \<Rightarrow> string \<Rightarrow> file_state \<Rightarrow> exn + file_state" where
  "record_student_certificate cert_id school_name now fs =
    (case load_data fs of
       Inl e \<Rightarrow> Inl e
     | Inr d \<Rightarrow>
        let certs = AList.update cert_id
                      [(''school_name'', Some school_name), (''date'', Some now)]
                      (student_certificates d);
            d = d\<lparr>student_certificates := certs\<rparr>;
            d = d\<lparr>stats := (stats d)\<lparr>total_student_certificates :=
                                         int (length (student_certificates d))\<rparr>\<rparr>
        in Inr (save_data d fs))"

subsection \<open>get\_stats\<close>

text \<open>
  A number in the result: an integer, or the float that
  \<^verbatim>\<open>round((count / total) * 100, 1)\<close> computes, kept as the expression it is
  (floating-point arithmetic is not evaluated here).
\<close>

datatype number = IntNum int | RoundPct int int

record stats_out = stats_doc +
  countries :: "(string \<times> int) list"
  country_percentages :: "(string \<times> number) list"
  regions :: "(string \<times> int) list"
  region_percentages :: "(string \<times> number) list"

text \<open>The body of the first loop: \<^verbatim>\<open>cert_data.get('region', 'Unknown')\<close>, then the
  test \<^verbatim>\<open>if country:\<close>, which \<^verbatim>\<open>None\<close> and the empty string fail.\<close>

definition get_region_or_unknown :: "cert_data \<Rightarrow> string option" where
  "get_region_or_unknown cert_data =
    (case map_of cert_data ''region'' of None \<Rightarrow> Some ''Unknown'' | Some v \<Rightarrow> v)"

definition count_country :: "string \<times> cert_data \<Rightarrow> (string \<times> int) list \<Rightarrow> (string \<times> int) list" where
  "count_country entry country_counts =
    (case get_region_or_unknown (snd entry) of
       None \<Rightarrow> country_counts
     | Some country \<Rightarrow>
        if country \<noteq> []
        then AList.update country
               ((case map_of country_counts country of None \<Rightarrow> 0 | Some n \<Rightarrow> n) + 1)
               country_counts
        else country_counts)"

text \<open>The body of the second loop: \<^verbatim>\<open>cert_data.get('region')\<close>, then
  \<^verbatim>\<open>if region in region_counts: region_counts[region] += 1\<close>.\<close>

definition count_region :: "string \<times> cert_data \<Rightarrow> (string \<times> int) list \<Rightarrow> (string \<times> int) list" where
  "count_region entry region_counts =
    (case map_of (snd entry) ''region'' of
       None \<Rightarrow> region_counts
     | Some None \<Rightarrow> region_counts
     | Some (Some region) \<Rightarrow>
        (case map_of region_counts region of
           None \<Rightarrow> region_counts
         | Some n \<Rightarrow> AList.update region (n + 1) region_counts))"

definition initial_region_counts :: "(string \<times> int) list" where
  "initial_region_counts =
    [(''England'', 0), (''Wales'', 0), (''Northern Ireland'', 0), (''Scotland'', 0)]"

definition get_stats :: "file_state \<Rightarrow> exn + stats_out" where
  "get_stats fs =
    (case load_data fs of
       Inl e \<Rightarrow> Inl e
     | Inr d \<Rightarrow>
        let country_counts = fold count_country (school_certificates d) [];
            total = total_school_certificates (stats d);
            percentages =
              (if total > 0
               then map (\<lambda>(country, count). (country, RoundPct count total)) country_counts
               else []);
            region_counts = fold count_region (school_certificates d) initial_region_counts;
            region_pct =
              (if total > 0
               then map (\<lambda>(region, count). (region, RoundPct count total)) region_counts
               else map (\<lambda>(region, count). (region, IntNum 0)) region_counts)
        in Inr \<lparr>total_school_certificates = total,
                total_student_certificates = total_student_certificates (stats d),
                countries = country_counts,
                country_percentages = percentages,
                regions = region_counts,
                region_percentages = region_pct\<rparr>)"

subsection \<open>get\_all\_data and get\_certificate\_info\<close>




subsection \<open>Sequences of recording calls\<close>

datatype operation =
  RecordSchool string string "string option" string
| RecordStudent string string string

fun apply_operation :: "file_state \<Rightarrow> operation \<Rightarrow> exn + file_state" where
  "apply_operation fs (RecordSchool cert_id school_name region now) =
     record_school_certificate cert_id school_name region now fs"
| "apply_operation fs (RecordStudent cert_id school_name now) =
     record_student_certificate cert_id school_name now fs"

text \<open>A run stops at the first call that raises.\<close>

fun run :: "file_state \<Rightarrow> operation list \<Rightarrow> exn + file_state" where
  "run fs [] = Inr fs"
| "run fs (op # ops) =
     (case apply_operation fs op of Inl e \<Rightarrow> Inl e | Inr fs' \<Rightarrow> run fs' ops)"

subsection \<open>Auxiliary notions for the proofs about the data store\<close>

text \<open>How many entries of \<open>certs\<close> the first loop of \<open>get_stats\<close> counts for
  \<open>country\<close>.\<close>

definition entries_in :: "string \<Rightarrow> (string \<times> cert_data) list \<Rightarrow> nat" where
  "entries_in country certs =
     length (filter (\<lambda>entry. get_region_or_unknown (snd entry) = Some country) certs)"

text \<open>What one recording call does to the document it has loaded.\<close>

fun apply_doc :: "data \<Rightarrow> operation \<Rightarrow> data" where
  "apply_doc d (RecordSchool cert_id school_name region now) =
     d\<lparr>school_certificates :=
          AList.update cert_id
            [(''school_name'', Some school_name), (''region'', region), (''date'', Some now)]
            (school_certificates d),
       stats := (stats d)\<lparr>total_school_certificates :=
          int (length (AList.update cert_id
            [(''school_name'', Some school_name), (''region'', region), (''date'', Some now)]
            (school_certificates d)))\<rparr>\<rparr>"
| "apply_doc d (RecordStudent cert_id school_name now) =
     d\<lparr>student_certificates :=
          AList.update cert_id
            [(''school_name'', Some school_name), (''date'', Some now)]
            (student_certificates d),
       stats := (stats d)\<lparr>total_student_certificates :=
          int (length (AList.update cert_id
            [(''school_name'', Some school_name), (''date'', Some now)]
            (student_certificates d)))\<rparr>\<rparr>"

text \<open>The certificate ids that a sequence of calls records, by kind.\<close>

fun school_ids :: "operation list \<Rightarrow> string list" where
  "school_ids [] = []"
| "school_ids (RecordSchool cert_id school_name region now # ops) = cert_id # school_ids ops"
| "school_ids (RecordStudent cert_id school_name now # ops) = school_ids ops"

fun student_ids :: "operation list \<Rightarrow> string list" where
  "student_ids [] = []"
| "student_ids (RecordSchool cert_id school_name region now # ops) = student_ids ops"
| "student_ids (RecordStudent cert_id school_name now # ops) = cert_id # student_ids ops"

text \<open>The stored totals are the lengths of the two mappings, whose keys are distinct.\<close>

definition counted :: "data \<Rightarrow> bool" where
  "counted d =
    (total_school_certificates (stats d) = int (length (school_certificates d)) \<and>
     total_student_certificates (stats d) = int (length (student_certificates d)) \<and>
     distinct (map fst (school_certificates d)) \<and>
     distinct (map fst (student_certificates d)))"

text \<open>An entry of a mapping is the one that some call of the sequence wrote.\<close>

definition school_entry_from :: "operation list \<Rightarrow> string \<times> cert_data \<Rightarrow> bool" where
  "school_entry_from ops p =
    (\<exists>school_name region now.
       RecordSchool (fst p) school_name region now \<in> set ops \<and>
       snd p = [(''school_name'', Some school_name), (''region'', region), (''date'', Some now)])"

definition student_entry_from :: "operation list \<Rightarrow> string \<times> cert_data \<Rightarrow> bool" where
  "student_entry_from ops p =
    (\<exists>school_name now.
       RecordStudent (fst p) school_name now \<in> set ops \<and>
       snd p = [(''school_name'', Some school_name), (''date'', Some now)])"

section \<open>Properties of the profanity filter\<close>

subsection \<open>Lower case and normalization, character by character\<close>

lemma lower_char_if:
  "lower_char c = (if is_upper_code (of_char c) then char_of ((of_char c :: nat) + 32) else c)"
  unfolding lower_char_def Let_def is_upper_code_def by (rule refl)

lemma is_upper_code_bound: "is_upper_code n \<Longrightarrow> n + 32 < 256 \<and> \<not> is_upper_code (n + 32)"
  unfolding is_upper_code_def by arith

lemma a_to_z_not_upper: "97 \<le> n \<and> n \<le> 122 \<Longrightarrow> \<not> is_upper_code n"
  unfolding is_upper_code_def by arith

lemma lower_char_a_to_z: "is_a_to_z c \<Longrightarrow> lower_char c = c"
  unfolding is_a_to_z_def by (simp only: lower_char_if a_to_z_not_upper if_False)

lemma lower_char_idem: "lower_char (lower_char c) = lower_char c"
proof (cases "is_upper_code (of_char c)")
  case True
  then have up: "lower_char c = char_of ((of_char c :: nat) + 32)"
    by (simp only: lower_char_if if_True)
  from True have b: "(of_char c :: nat) + 32 < 256" and nu: "\<not> is_upper_code (of_char c + 32)"
    using is_upper_code_bound by blast+
  have "(of_char (lower_char c) :: nat) = (of_char c + 32) mod 256"
    unfolding up by (rule of_char_of)
  also have "\<dots> = of_char c + 32"
    using b by (rule mod_less)
  finally have n: "(of_char (lower_char c) :: nat) = of_char c + 32" .
  show ?thesis
    by (simp only: lower_char_if [of "lower_char c"] n nu if_False)
next
  case False
  then have "lower_char c = c"
    by (simp only: lower_char_if if_False)
  then show ?thesis by simp
qed

lemma py_lower_idem: "py_lower (py_lower s) = py_lower s"
  by (simp add: py_lower_def lower_char_idem)

lemma fold_replace_map:
  "fold (\<lambda>(leet_char, normal_char) s. py_replace leet_char normal_char s) m s =
   map (fold (\<lambda>(leet_char, normal_char) d. if d = leet_char then normal_char else d) m) s"
  by (induction m arbitrary: s) (auto simp: py_replace_def)

lemma norm_char_fun:
  "norm_char = (\<lambda>c. fold (\<lambda>(leet_char, normal_char) d. if d = leet_char then normal_char else d)
       LEET_SPEAK_MAP (lower_char c))"
  by (rule ext) (simp add: norm_char_def)

lemma normalize_text_Some: "normalize_text (Some t) = filter is_a_to_z (map norm_char t)"
  by (simp add: normalize_text_def py_lower_def fold_replace_map norm_char_fun Let_def comp_def)

lemma fold_subst_other:
  "c \<notin> fst ` set m \<Longrightarrow>
   fold (\<lambda>(leet_char, normal_char) d. if d = leet_char then normal_char else d) m c = c"
  by (induction m) auto

lemma leet_keys_not_a_to_z: "\<forall>k\<in>fst ` set LEET_SPEAK_MAP. \<not> is_a_to_z k"
  by (simp add: LEET_SPEAK_MAP_def is_a_to_z_def)

lemma norm_char_a_to_z: "is_a_to_z c \<Longrightarrow> norm_char c = c"
proof -
  assume az: "is_a_to_z c"
  then have "c \<notin> fst ` set LEET_SPEAK_MAP"
    using leet_keys_not_a_to_z by blast
  then have "fold (\<lambda>(leet_char, normal_char) d. if d = leet_char then normal_char else d)
      LEET_SPEAK_MAP c = c"
    by (rule fold_subst_other)
  then show ?thesis
    by (simp only: norm_char_def lower_char_a_to_z [OF az])
qed

lemma normalize_text_append:
  "normalize_text (Some (s @ t)) = normalize_text (Some s) @ normalize_text (Some t)"
  by (simp add: normalize_text_Some)

lemma normalize_text_sublist:
  assumes "sublist w s"
  shows "sublist (normalize_text (Some w)) (normalize_text (Some s))"
proof -
  from assms obtain ps ss where "s = ps @ w @ ss"
    by (auto simp: sublist_def)
  then show ?thesis
    by (simp add: normalize_text_append)
qed

lemma normalize_text_a_to_z: "\<forall>c\<in>set (normalize_text x). is_a_to_z c"
  by (cases x) (simp_all add: normalize_text_Some normalize_text_def)

lemma normalize_text_fixed:
  "\<forall>c\<in>set s. is_a_to_z c \<Longrightarrow> normalize_text (Some s) = s"
  by (induction s) (simp_all add: normalize_text_Some norm_char_a_to_z)

lemma normalize_text_py_lower:
  "normalize_text (Some (py_lower t)) = normalize_text (Some t)"
proof -
  have "norm_char (lower_char c) = norm_char c" for c
    by (simp add: norm_char_def lower_char_idem)
  then show ?thesis
    by (simp add: normalize_text_Some py_lower_def comp_def)
qed

subsection \<open>Words of a text\<close>

lemma split_ws_sublist: "w \<in> set (split_ws cur s) \<Longrightarrow> sublist w (cur @ s)"
proof (induction s arbitrary: cur)
  case Nil
  then show ?case by (simp split: if_splits)
next
  case (Cons c cs)
  show ?case
  proof (cases "is_space c")
    case False
    with Cons.prems have "w \<in> set (split_ws (cur @ [c]) cs)" by simp
    then have "sublist w ((cur @ [c]) @ cs)" by (rule Cons.IH)
    then show ?thesis by simp
  next
    case True
    with Cons.prems have "w = cur \<or> w \<in> set (split_ws [] cs)"
      by (auto split: if_splits)
    then show ?thesis
    proof
      assume "w = cur"
      then show ?thesis by simp
    next
      assume "w \<in> set (split_ws [] cs)"
      then have "sublist w ([] @ cs)" by (rule Cons.IH)
      then have "sublist w cs" by simp
      then obtain ps ss where "cs = ps @ w @ ss" by (auto simp: sublist_def)
      then have "cur @ c # cs = (cur @ c # ps) @ w @ ss" by simp
      then show ?thesis unfolding sublist_def by blast
    qed
  qed
qed

subsection \<open>The two passes of contains\_profanity\<close>

lemma blocked_words_nonempty: "[] \<notin> BLOCKED_WORDS"
  by (simp add: BLOCKED_WORDS_def BLOCKED_WORDS_list_def)

lemma blocked_words_a_to_z_list: "list_all (list_all is_a_to_z) BLOCKED_WORDS_list"
  by code_simp

lemma blocked_words_a_to_z: "w \<in> BLOCKED_WORDS \<Longrightarrow> \<forall>c\<in>set w. is_a_to_z c"
  using blocked_words_a_to_z_list by (simp add: BLOCKED_WORDS_def list_all_iff)

lemma split_word_normalized:
  assumes "original_word \<in> set (py_split (py_lower t))"
  shows "py_in (normalize_text (Some original_word)) (normalize_text (Some t))"
proof -
  from assms have "sublist original_word ([] @ py_lower t)"
    unfolding py_split_def by (rule split_ws_sublist)
  then have "sublist original_word (py_lower t)" by simp
  then have "sublist (normalize_text (Some original_word)) (normalize_text (Some (py_lower t)))"
    by (rule normalize_text_sublist)
  then show ?thesis
    by (simp add: py_in_def normalize_text_py_lower)
qed

lemma contains_profanity_empty:
  "contains_profanity blocked None = (False, None)"
  "contains_profanity blocked (Some []) = (False, None)"
  by (simp_all add: contains_profanity_def)

lemma contains_profanity_first:
  assumes "t \<noteq> []" and "find (\<lambda>word. py_in word (normalize_text (Some t))) blocked = Some w"
  shows "contains_profanity blocked (Some t) = (True, Some w)"
  using assms by (simp add: contains_profanity_def)

lemma contains_profanity_no_match:
  assumes "\<forall>w\<in>set blocked. \<not> py_in w (normalize_text (Some t))"
  shows "contains_profanity blocked (Some t) = (False, None)"
proof (cases "t = []")
  case True
  then show ?thesis by (simp add: contains_profanity_empty)
next
  case False
  from assms have first: "find (\<lambda>word. py_in word (normalize_text (Some t))) blocked = None"
    by (simp add: find_None_iff)
  have "\<not> (\<exists>x. x \<in> set (map (\<lambda>original_word. normalize_text (Some original_word))
            (py_split (py_lower t))) \<and> x \<in> set blocked)"
  proof
    assume "\<exists>x. x \<in> set (map (\<lambda>original_word. normalize_text (Some original_word))
            (py_split (py_lower t))) \<and> x \<in> set blocked"
    then obtain ow where ow: "ow \<in> set (py_split (py_lower t))"
      and b: "normalize_text (Some ow) \<in> set blocked"
      by auto
    from ow have "py_in (normalize_text (Some ow)) (normalize_text (Some t))"
      by (rule split_word_normalized)
    with assms b show False by blast
  qed
  then have second: "find (\<lambda>normalized_word. normalized_word \<in> set blocked)
      (map (\<lambda>original_word. normalize_text (Some original_word)) (py_split (py_lower t))) = None"
    by (rule find_None_iff [THEN iffD2])
  from False first second show ?thesis
    by (simp add: contains_profanity_def)
qed

lemma contains_profanity_iff:
  assumes "[] \<notin> set blocked"
  shows "fst (contains_profanity blocked text) = (\<exists>w\<in>set blocked. py_in w (normalize_text text))"
proof (cases "\<exists>w\<in>set blocked. py_in w (normalize_text text)")
  case False
  show ?thesis
  proof (cases "text")
    case None
    with False show ?thesis by (simp add: contains_profanity_empty)
  next
    case (Some t)
    with False have "contains_profanity blocked (Some t) = (False, None)"
      by (intro contains_profanity_no_match) simp
    with False Some show ?thesis by simp
  qed
next
  case True
  then obtain w where w: "w \<in> set blocked" "py_in w (normalize_text text)" by blast
  with assms have "normalize_text text \<noteq> []"
    by (auto simp: py_in_def)
  then obtain t where t: "text = Some t" "t \<noteq> []"
    by (cases "text") (auto simp: normalize_text_def split: if_splits)
  from w t have "find (\<lambda>word. py_in word (normalize_text (Some t))) blocked \<noteq> None"
    by (auto simp: find_None_iff)
  then obtain x where "find (\<lambda>word. py_in word (normalize_text (Some t))) blocked = Some x"
    by blast
  with t have "contains_profanity blocked text = (True, Some x)"
    by (simp add: contains_profanity_first)
  with True show ?thesis by simp
qed

lemma contains_profanity_unique:
  assumes "t \<noteq> []" and "w \<in> set blocked" and "py_in w (normalize_text (Some t))"
    and "\<forall>x\<in>set blocked. py_in x (normalize_text (Some t)) \<longrightarrow> x = w"
  shows "contains_profanity blocked (Some t) = (True, Some w)"
proof -
  from assms(2,3) have "find (\<lambda>word. py_in word (normalize_text (Some t))) blocked \<noteq> None"
    by (auto simp: find_None_iff)
  then obtain x where x: "find (\<lambda>word. py_in word (normalize_text (Some t))) blocked = Some x"
    by blast
  then have "x \<in> set blocked \<and> py_in x (normalize_text (Some t))"
    by (auto simp: find_Some_iff)
  with assms(4) have "x = w" by blast
  with x assms(1) show ?thesis
    by (simp add: contains_profanity_first)
qed

lemma is_space_erased: "is_space c \<Longrightarrow> \<not> is_a_to_z (norm_char c)"
proof -
  assume sp: "is_space c"
  then have nu: "\<not> is_upper_code (of_char c)"
    unfolding is_space_def Let_def is_upper_code_def by arith
  have "\<forall>k\<in>fst ` set LEET_SPEAK_MAP. \<not> is_space k"
    by (simp add: LEET_SPEAK_MAP_def is_space_def)
  with sp have "c \<notin> fst ` set LEET_SPEAK_MAP" by blast
  then have "fold (\<lambda>(leet_char, normal_char) d. if d = leet_char then normal_char else d)
      LEET_SPEAK_MAP c = c"
    by (rule fold_subst_other)
  with nu have "norm_char c = c"
    by (simp only: norm_char_def lower_char_if if_False)
  moreover from sp have "\<not> is_a_to_z c"
    unfolding is_space_def Let_def is_a_to_z_def by arith
  ultimately show ?thesis by simp
qed

lemma split_ws_concat:
  "concat (map (\<lambda>w. normalize_text (Some w)) (split_ws cur s)) =
   normalize_text (Some (cur @ s))"
proof (induction s arbitrary: cur)
  case Nil
  then show ?case by (simp add: normalize_text_Some)
next
  case (Cons c cs)
  show ?case
  proof (cases "is_space c")
    case True
    then have "normalize_text (Some [c]) = []"
      by (simp add: normalize_text_Some is_space_erased)
    then have "normalize_text (Some (cur @ c # cs)) =
        normalize_text (Some cur) @ normalize_text (Some cs)"
      using normalize_text_append [of cur "[c] @ cs"] normalize_text_append [of "[c]" cs]
      by simp
    with True Cons.IH [of "[]"] show ?thesis
      by (simp add: normalize_text_Some)
  next
    case False
    with Cons.IH [of "cur @ [c]"] show ?thesis by simp
  qed
qed

lemma words_concat:
  "concat (map (\<lambda>original_word. normalize_text (Some original_word)) (py_split (py_lower t))) =
   normalize_text (Some t)"
  unfolding py_split_def by (simp add: split_ws_concat normalize_text_py_lower)

subsection \<open>Fields in order\<close>

lemma check_all_fields_find:
  "check_all_fields blocked flds =
    (case find (\<lambda>(field_name, text). fst (contains_profanity blocked text)) flds of
       None \<Rightarrow> (True, None, None)
     | Some (field_name, text) \<Rightarrow> (False, Some field_name, snd (contains_profanity blocked text)))"
  by (induction flds) (auto split: prod.splits)

lemma check_all_fields_clean:
  "\<forall>(field_name, text)\<in>set flds. \<not> fst (contains_profanity blocked text) \<Longrightarrow>
   check_all_fields blocked flds = (True, None, None)"
  by (induction flds) (auto split: prod.splits)

lemma check_all_fields_first:
  "\<forall>(field_name, text)\<in>set before. \<not> fst (contains_profanity blocked text) \<Longrightarrow>
   fst (contains_profanity blocked text) \<Longrightarrow>
   check_all_fields blocked (before @ (name, text) # rest) =
     (False, Some name, snd (contains_profanity blocked text))"
  by (induction before) (auto split: prod.splits)

lemma set_blocked_list: "set BLOCKED_WORDS_list = BLOCKED_WORDS"
  by (simp add: BLOCKED_WORDS_def)

lemma blocked_words_fixed: "w \<in> BLOCKED_WORDS \<Longrightarrow> normalize_text (Some w) = w"
  by (rule normalize_text_fixed) (rule blocked_words_a_to_z)

lemma only_term_in:
  assumes "list_all (\<lambda>x. py_in x s \<longrightarrow> x = w) BLOCKED_WORDS_list"
  shows "\<forall>x\<in>BLOCKED_WORDS. py_in x s \<longrightarrow> x = w"
  using assms unfolding BLOCKED_WORDS_def list_all_iff .

lemma no_term_in:
  assumes "list_all (\<lambda>x. \<not> py_in x s) BLOCKED_WORDS_list"
  shows "\<forall>x\<in>BLOCKED_WORDS. \<not> py_in x s"
  using assms unfolding BLOCKED_WORDS_def list_all_iff .

lemma contains_5h1t:
  assumes "set blocked = BLOCKED_WORDS"
  shows "contains_profanity blocked (Some ''5h1t'') = (True, Some ''shit'')"
proof (rule contains_profanity_unique)
  have n: "normalize_text (Some ''5h1t'') = ''shit''" by code_simp
  show "''5h1t'' \<noteq> []" by simp
  show "''shit'' \<in> set blocked"
    unfolding assms by (simp add: BLOCKED_WORDS_def BLOCKED_WORDS_list_def)
  show "py_in ''shit'' (normalize_text (Some ''5h1t''))"
    unfolding n by (simp add: py_in_def)
  have "list_all (\<lambda>x. py_in x ''shit'' \<longrightarrow> x = ''shit'') BLOCKED_WORDS_list" by code_simp
  then show "\<forall>x\<in>set blocked. py_in x (normalize_text (Some ''5h1t'')) \<longrightarrow> x = ''shit''"
    unfolding n assms by (rule only_term_in)
qed

lemma contains_h3ll0:
  assumes "set blocked = BLOCKED_WORDS"
  shows "contains_profanity blocked (Some ''h3ll0'') = (True, Some ''hell'')"
proof (rule contains_profanity_unique)
  have n: "normalize_text (Some ''h3ll0'') = ''hello''" by code_simp
  show "''h3ll0'' \<noteq> []" by simp
  show "''hell'' \<in> set blocked"
    unfolding assms by (simp add: BLOCKED_WORDS_def BLOCKED_WORDS_list_def)
  show "py_in ''hell'' (normalize_text (Some ''h3ll0''))"
    unfolding n by code_simp
  have "list_all (\<lambda>x. py_in x ''hello'' \<longrightarrow> x = ''hell'') BLOCKED_WORDS_list" by code_simp
  then show "\<forall>x\<in>set blocked. py_in x (normalize_text (Some ''h3ll0'')) \<longrightarrow> x = ''hell''"
    unfolding n assms by (rule only_term_in)
qed

lemma contains_fuckface:
  assumes "set blocked = BLOCKED_WORDS"
  shows "contains_profanity blocked (Some ''fuckface'') = (True, Some ''fuck'')"
proof (rule contains_profanity_unique)
  have n: "normalize_text (Some ''fuckface'') = ''fuckface''" by code_simp
  show "''fuckface'' \<noteq> []" by simp
  show "''fuck'' \<in> set blocked"
    unfolding assms by (simp add: BLOCKED_WORDS_def BLOCKED_WORDS_list_def)
  show "py_in ''fuck'' (normalize_text (Some ''fuckface''))"
    unfolding n by code_simp
  have "list_all (\<lambda>x. py_in x ''fuckface'' \<longrightarrow> x = ''fuck'') BLOCKED_WORDS_list" by code_simp
  then show "\<forall>x\<in>set blocked. py_in x (normalize_text (Some ''fuckface'')) \<longrightarrow> x = ''fuck''"
    unfolding n assms by (rule only_term_in)
qed

lemma contains_clean_name:
  assumes "set blocked = BLOCKED_WORDS"
  shows "contains_profanity blocked (Some ''Clean Name'') = (False, None)"
proof (rule contains_profanity_no_match)
  have n: "normalize_text (Some ''Clean Name'') = ''cleanname''" by code_simp
  have "list_all (\<lambda>x. \<not> py_in x ''cleanname'') BLOCKED_WORDS_list" by code_simp
  then show "\<forall>w\<in>set blocked. \<not> py_in w (normalize_text (Some ''Clean Name''))"
    unfolding n assms by (rule no_term_in)
qed

subsection \<open>The claims about the filter\<close>

text \<open>
  Claim C5. \<open>normalize_text\<close> is idempotent: normalizing a normalized text changes
  nothing, for every input, and \<^verbatim>\<open>None\<close> and the empty string normalize to the
  empty string.
\<close>

theorem normalize_text_idempotent:
  "normalize_text (Some (normalize_text x)) = normalize_text x \<and>
   normalize_text None = [] \<and> normalize_text (Some []) = []"
proof -
  have "normalize_text (Some (normalize_text x)) = normalize_text x"
    using normalize_text_a_to_z [of x] by (rule normalize_text_fixed)
  then show ?thesis by (simp add: normalize_text_def)
qed

text \<open>
  Claim C6. Whatever the iteration order of the set, for every blocked term \<open>t\<close> and
  all strings \<open>a\<close> and \<open>b\<close> (of letters or of any other characters),
  \<open>contains_profanity\<close> reports a match on \<open>a + t + b\<close>, and the normalization of
  the concatenation contains \<open>t\<close>. \<^verbatim>\<open>"5h1t"\<close> matches \<^verbatim>\<open>"shit"\<close> and
  \<^verbatim>\<open>"h3ll0"\<close> matches \<^verbatim>\<open>"hell"\<close>.
\<close>

theorem contains_profanity_embedded_term:
  assumes "set blocked = BLOCKED_WORDS" and "t \<in> BLOCKED_WORDS"
  shows "fst (contains_profanity blocked (Some (a @ t @ b))) \<and>
         py_in t (normalize_text (Some (a @ t @ b))) \<and>
         contains_profanity blocked (Some ''5h1t'') = (True, Some ''shit'') \<and>
         contains_profanity blocked (Some ''h3ll0'') = (True, Some ''hell'')"
proof -
  have "normalize_text (Some (a @ t @ b)) =
      normalize_text (Some a) @ t @ normalize_text (Some b)"
    using assms(2) by (simp add: normalize_text_append blocked_words_fixed)
  then have sub: "py_in t (normalize_text (Some (a @ t @ b)))"
    by (simp add: py_in_def)
  from assms have "[] \<notin> set blocked"
    by (simp add: blocked_words_nonempty)
  then have "fst (contains_profanity blocked (Some (a @ t @ b))) =
      (\<exists>w\<in>set blocked. py_in w (normalize_text (Some (a @ t @ b))))"
    by (rule contains_profanity_iff)
  with sub assms have "fst (contains_profanity blocked (Some (a @ t @ b)))"
    by blast
  with sub contains_5h1t [OF assms(1)] contains_h3ll0 [OF assms(1)] show ?thesis
    by simp
qed

theorem contains_profanity_embedded_term_witness:
  "set BLOCKED_WORDS_list = BLOCKED_WORDS \<and> ''fuck'' \<in> BLOCKED_WORDS \<and>
   fst (contains_profanity BLOCKED_WORDS_list (Some ''bullyfuckville'')) \<and>
   contains_profanity BLOCKED_WORDS_list (Some ''5h1t'') = (True, Some ''shit'')"
proof -
  have h1: "set BLOCKED_WORDS_list = BLOCKED_WORDS" by (rule set_blocked_list)
  have h2: "''fuck'' \<in> BLOCKED_WORDS"
    by (simp add: BLOCKED_WORDS_def BLOCKED_WORDS_list_def)
  show ?thesis
    using h1 h2 contains_profanity_embedded_term [OF h1 h2, of "''bully''" "''ville''"]
    by simp
qed

text \<open>
  Claim C7. \<open>check_all_fields\<close> goes through the fields in the given order and
  returns the first field on which \<open>contains_profanity\<close> reports a match, whatever
  fields come after it; when no field matches, the result is
  \<^verbatim>\<open>(True, None, None)\<close>; and on the fields \<^verbatim>\<open>a="Clean Name", b="fuckface"\<close> the
  result is \<^verbatim>\<open>(False, "b", "fuck")\<close>.
\<close>

theorem check_all_fields_first_offender:
  assumes "set blocked = BLOCKED_WORDS"
  shows "((\<forall>(field_name, text)\<in>set before. \<not> fst (contains_profanity blocked text)) \<and>
            fst (contains_profanity blocked text) \<longrightarrow>
          check_all_fields blocked (before @ (name, text) # rest) =
            (False, Some name, snd (contains_profanity blocked text))) \<and>
         ((\<forall>(field_name, text)\<in>set flds. \<not> fst (contains_profanity blocked text)) \<longrightarrow>
          check_all_fields blocked flds = (True, None, None)) \<and>
         check_all_fields blocked [(''a'', Some ''Clean Name''), (''b'', Some ''fuckface'')] =
           (False, Some ''b'', Some ''fuck'')"
proof -
  have "check_all_fields blocked [(''a'', Some ''Clean Name''), (''b'', Some ''fuckface'')] =
      (False, Some ''b'', Some ''fuck'')"
    by (simp add: contains_clean_name [OF assms] contains_fuckface [OF assms])
  then show ?thesis
    using check_all_fields_first [of before blocked "text" name rest]
      check_all_fields_clean [of flds blocked]
    by blast
qed

theorem check_all_fields_first_offender_witness:
  "set BLOCKED_WORDS_list = BLOCKED_WORDS \<and>
   check_all_fields BLOCKED_WORDS_list
     [(''a'', Some ''Clean Name''), (''b'', Some ''fuckface''), (''c'', Some ''5h1t'')] =
     (False, Some ''b'', Some ''fuck'') \<and>
   check_all_fields BLOCKED_WORDS_list [(''a'', Some ''Clean Name''), (''b'', None)] =
     (True, None, None)"
proof -
  have h: "set BLOCKED_WORDS_list = BLOCKED_WORDS" by (rule set_blocked_list)
  have c: "contains_profanity BLOCKED_WORDS_list (Some ''Clean Name'') = (False, None)"
    by (rule contains_clean_name [OF h])
  have f: "contains_profanity BLOCKED_WORDS_list (Some ''fuckface'') = (True, Some ''fuck'')"
    by (rule contains_fuckface [OF h])
  show ?thesis
    using h c f
      check_all_fields_first_offender [OF h, of "[(''a'', Some ''Clean Name'')]"
        "Some ''fuckface''" "''b''" "[(''c'', Some ''5h1t'')]"
        "[(''a'', Some ''Clean Name''), (''b'', None)]"]
    by (simp add: contains_profanity_empty)
qed

text \<open>
  Claim C10. The boolean result of \<open>contains_profanity\<close> is that of the substring
  check on the whole text alone: some blocked term occurs in \<open>normalize_text text\<close>.
  The reason: the normalized text is the concatenation of the normalized words, so every
  normalized word occurs in it.
\<close>

theorem contains_profanity_is_substring_check:
  assumes "set blocked = BLOCKED_WORDS"
  shows "fst (contains_profanity blocked text) =
           (\<exists>w\<in>BLOCKED_WORDS. py_in w (normalize_text text)) \<and>
         (\<forall>t. normalize_text (Some t) =
           concat (map (\<lambda>original_word. normalize_text (Some original_word))
                    (py_split (py_lower t)))) \<and>
         (\<forall>t. \<forall>original_word\<in>set (py_split (py_lower t)).
            py_in (normalize_text (Some original_word)) (normalize_text (Some t)))"
proof -
  from assms have "[] \<notin> set blocked"
    by (simp add: blocked_words_nonempty)
  then have "fst (contains_profanity blocked text) =
      (\<exists>w\<in>set blocked. py_in w (normalize_text text))"
    by (rule contains_profanity_iff)
  then show ?thesis
    unfolding assms by (simp add: words_concat split_word_normalized)
qed

theorem contains_profanity_is_substring_check_witness:
  "set BLOCKED_WORDS_list = BLOCKED_WORDS \<and>
   fst (contains_profanity BLOCKED_WORDS_list (Some ''you are a JERK'')) \<and>
   (\<exists>w\<in>BLOCKED_WORDS. py_in w (normalize_text (Some ''you are a JERK''))) \<and>
   \<not> fst (contains_profanity BLOCKED_WORDS_list (Some ''Clean Name''))"
proof -
  have h: "set BLOCKED_WORDS_list = BLOCKED_WORDS" by (rule set_blocked_list)
  have j: "fst (contains_profanity BLOCKED_WORDS_list (Some ''you are a JERK''))"
    by code_simp
  have c: "contains_profanity BLOCKED_WORDS_list (Some ''Clean Name'') = (False, None)"
    by (rule contains_clean_name [OF h])
  then have nc: "\<not> fst (contains_profanity BLOCKED_WORDS_list (Some ''Clean Name''))"
    by simp
  have "fst (contains_profanity BLOCKED_WORDS_list (Some ''you are a JERK'')) =
      (\<exists>w\<in>BLOCKED_WORDS. py_in w (normalize_text (Some ''you are a JERK'')))"
    using contains_profanity_is_substring_check [OF h, of "Some ''you are a JERK''"]
    by (rule conjunct1)
  with j have ex: "\<exists>w\<in>BLOCKED_WORDS. py_in w (normalize_text (Some ''you are a JERK''))"
    by (rule iffD1 [rotated])
  show ?thesis
    by (intro conjI h j ex nc)
qed

section \<open>Properties of the data store\<close>

subsection \<open>The loops of get\_stats\<close>

lemma count_country_step:
  "map_of (count_country entry acc) c =
    (if c \<noteq> [] \<and> get_region_or_unknown (snd entry) = Some c
     then Some ((case map_of acc c of None \<Rightarrow> 0 | Some m \<Rightarrow> m) + 1)
     else map_of acc c)"
  by (auto simp: count_country_def AList.update_conv' split: option.splits)

lemma fold_count_country:
  "map_of (fold count_country certs acc) c =
    (if c \<noteq> [] \<and> 0 < entries_in c certs
     then Some ((case map_of acc c of None \<Rightarrow> 0 | Some m \<Rightarrow> m) + int (entries_in c certs))
     else map_of acc c)"
proof (induction certs arbitrary: acc)
  case Nil
  then show ?case by (simp add: entries_in_def)
next
  case (Cons entry certs)
  have "map_of (fold count_country (entry # certs) acc) c =
      map_of (fold count_country certs (count_country entry acc)) c"
    by simp
  also have "\<dots> = (if c \<noteq> [] \<and> 0 < entries_in c certs
     then Some ((case map_of (count_country entry acc) c of None \<Rightarrow> 0 | Some m \<Rightarrow> m)
                + int (entries_in c certs))
     else map_of (count_country entry acc) c)"
    by (rule Cons.IH)
  also have "\<dots> = (if c \<noteq> [] \<and> 0 < entries_in c (entry # certs)
     then Some ((case map_of acc c of None \<Rightarrow> 0 | Some m \<Rightarrow> m) + int (entries_in c (entry # certs)))
     else map_of acc c)"
    by (simp add: count_country_step entries_in_def)
  finally show ?case .
qed

lemma get_stats_Inr:
  assumes "load_data fs = Inr d"
  shows "get_stats fs = Inr
    \<lparr>total_school_certificates = total_school_certificates (stats d),
     total_student_certificates = total_student_certificates (stats d),
     countries = fold count_country (school_certificates d) [],
     country_percentages =
       (if total_school_certificates (stats d) > 0
        then map (\<lambda>(country, count). (country, RoundPct count (total_school_certificates (stats d))))
               (fold count_country (school_certificates d) [])
        else []),
     regions = fold count_region (school_certificates d) initial_region_counts,
     region_percentages =
       (if total_school_certificates (stats d) > 0
        then map (\<lambda>(region, count). (region, RoundPct count (total_school_certificates (stats d))))
               (fold count_region (school_certificates d) initial_region_counts)
        else map (\<lambda>(region, count). (region, IntNum 0))
               (fold count_region (school_certificates d) initial_region_counts))\<rparr>"
  using assms by (simp add: get_stats_def Let_def)





subsection \<open>Runs of recording calls\<close>

lemma apply_operation_Inr:
  assumes "load_data fs = Inr d"
  shows "apply_operation fs op = Inr (Holds (apply_doc d op))"
  using assms
  by (cases op)
     (simp_all add: record_school_certificate_def record_student_certificate_def
        save_data_def Let_def)

lemma load_data_Holds: "load_data (Holds d) = Inr d"
  by (simp add: load_data_def)

lemma load_data_Missing: "load_data Missing = Inr default_data"
  by (simp add: load_data_def)

lemma run_Inr:
  assumes "load_data fs = Inr d"
  shows "\<exists>fs'. run fs ops = Inr fs' \<and> load_data fs' = Inr (foldl apply_doc d ops)"
  using assms
proof (induction ops arbitrary: fs d)
  case Nil
  then show ?case by simp
next
  case (Cons op ops)
  from Cons.prems have step: "apply_operation fs op = Inr (Holds (apply_doc d op))"
    by (rule apply_operation_Inr)
  have "load_data (Holds (apply_doc d op)) = Inr (apply_doc d op)"
    by (rule load_data_Holds)
  then have "\<exists>fs'. run (Holds (apply_doc d op)) ops = Inr fs' \<and>
      load_data fs' = Inr (foldl apply_doc (apply_doc d op) ops)"
    by (rule Cons.IH)
  with step show ?case by simp
qed

lemma length_update_distinct:
  "length (AList.update k v al) = (if k \<in> fst ` set al then length al else Suc (length al))"
  by (induction al) auto

lemma set_update_subset: "set (AList.update k v al) \<subseteq> insert (k, v) (set al)"
  by (induction al) auto

lemma counted_apply_doc: "counted d \<Longrightarrow> counted (apply_doc d op)"
  by (cases op) (simp_all add: counted_def AList.distinct_update)

lemma counted_foldl: "counted d \<Longrightarrow> counted (foldl apply_doc d ops)"
  by (induction ops arbitrary: d) (simp_all add: counted_apply_doc)

lemma counted_default: "counted default_data"
  by (simp add: counted_def default_data_def)

lemma school_keys_apply_doc:
  "set (map fst (school_certificates (apply_doc d op))) =
   set (map fst (school_certificates d)) \<union> set (school_ids [op])"
  by (cases op) (auto simp: AList.update_keys)

lemma student_keys_apply_doc:
  "set (map fst (student_certificates (apply_doc d op))) =
   set (map fst (student_certificates d)) \<union> set (student_ids [op])"
  by (cases op) (auto simp: AList.update_keys)

lemma school_ids_Cons: "school_ids (op # ops) = school_ids [op] @ school_ids ops"
  by (cases op) simp_all

lemma student_ids_Cons: "student_ids (op # ops) = student_ids [op] @ student_ids ops"
  by (cases op) simp_all

lemma school_keys_foldl:
  "set (map fst (school_certificates (foldl apply_doc d ops))) =
   set (map fst (school_certificates d)) \<union> set (school_ids ops)"
proof (induction ops arbitrary: d)
  case Nil
  then show ?case by simp
next
  case (Cons op ops)
  have "set (map fst (school_certificates (foldl apply_doc d (op # ops)))) =
      set (map fst (school_certificates (apply_doc d op))) \<union> set (school_ids ops)"
    using Cons.IH [of "apply_doc d op"] by simp
  also have "\<dots> = set (map fst (school_certificates d)) \<union> set (school_ids [op]) \<union> set (school_ids ops)"
    by (simp only: school_keys_apply_doc)
  also have "\<dots> = set (map fst (school_certificates d)) \<union> set (school_ids (op # ops))"
    by (subst school_ids_Cons [of op ops]) auto
  finally show ?case .
qed

lemma student_keys_foldl:
  "set (map fst (student_certificates (foldl apply_doc d ops))) =
   set (map fst (student_certificates d)) \<union> set (student_ids ops)"
proof (induction ops arbitrary: d)
  case Nil
  then show ?case by simp
next
  case (Cons op ops)
  have "set (map fst (student_certificates (foldl apply_doc d (op # ops)))) =
      set (map fst (student_certificates (apply_doc d op))) \<union> set (student_ids ops)"
    using Cons.IH [of "apply_doc d op"] by simp
  also have "\<dots> = set (map fst (student_certificates d)) \<union> set (student_ids [op]) \<union> set (student_ids ops)"
    by (simp only: student_keys_apply_doc)
  also have "\<dots> = set (map fst (student_certificates d)) \<union> set (student_ids (op # ops))"
    by (subst student_ids_Cons [of op ops]) auto
  finally show ?case .
qed

lemma school_entries_apply_doc:
  assumes "p \<in> set (school_certificates (apply_doc d op))"
  shows "p \<in> set (school_certificates d) \<or> school_entry_from [op] p"
proof (cases op)
  case (RecordSchool cert_id school_name region now)
  with assms have "p \<in> set (AList.update cert_id
      [(''school_name'', Some school_name), (''region'', region), (''date'', Some now)]
      (school_certificates d))"
    by simp
  then have "p = (cert_id,
      [(''school_name'', Some school_name), (''region'', region), (''date'', Some now)]) \<or>
      p \<in> set (school_certificates d)"
    using set_update_subset by fastforce
  with RecordSchool show ?thesis
    by (auto simp: school_entry_from_def)
next
  case (RecordStudent cert_id school_name now)
  with assms show ?thesis by simp
qed

lemma student_entries_apply_doc:
  assumes "p \<in> set (student_certificates (apply_doc d op))"
  shows "p \<in> set (student_certificates d) \<or> student_entry_from [op] p"
proof (cases op)
  case (RecordStudent cert_id school_name now)
  with assms have "p \<in> set (AList.update cert_id
      [(''school_name'', Some school_name), (''date'', Some now)]
      (student_certificates d))"
    by simp
  then have "p = (cert_id, [(''school_name'', Some school_name), (''date'', Some now)]) \<or>
      p \<in> set (student_certificates d)"
    using set_update_subset by fastforce
  with RecordStudent show ?thesis
    by (auto simp: student_entry_from_def)
next
  case (RecordSchool cert_id school_name region now)
  with assms show ?thesis by simp
qed

lemma school_entry_from_mono:
  "school_entry_from ops p \<Longrightarrow> set ops \<subseteq> set ops' \<Longrightarrow> school_entry_from ops' p"
  unfolding school_entry_from_def by blast

lemma student_entry_from_mono:
  "student_entry_from ops p \<Longrightarrow> set ops \<subseteq> set ops' \<Longrightarrow> student_entry_from ops' p"
  unfolding student_entry_from_def by blast

lemma school_entries_foldl:
  "p \<in> set (school_certificates (foldl apply_doc d ops)) \<Longrightarrow>
   p \<in> set (school_certificates d) \<or> school_entry_from ops p"
proof (induction ops arbitrary: d)
  case Nil
  then show ?case by simp
next
  case (Cons op ops)
  from Cons.prems have "p \<in> set (school_certificates (foldl apply_doc (apply_doc d op) ops))"
    by simp
  then have "p \<in> set (school_certificates (apply_doc d op)) \<or> school_entry_from ops p"
    by (rule Cons.IH)
  then show ?case
  proof
    assume "p \<in> set (school_certificates (apply_doc d op))"
    then have "p \<in> set (school_certificates d) \<or> school_entry_from [op] p"
      by (rule school_entries_apply_doc)
    then show ?thesis
      by (auto intro: school_entry_from_mono)
  next
    assume "school_entry_from ops p"
    then have "school_entry_from (op # ops) p"
      by (rule school_entry_from_mono) auto
    then show ?thesis ..
  qed
qed

lemma student_entries_foldl:
  "p \<in> set (student_certificates (foldl apply_doc d ops)) \<Longrightarrow>
   p \<in> set (student_certificates d) \<or> student_entry_from ops p"
proof (induction ops arbitrary: d)
  case Nil
  then show ?case by simp
next
  case (Cons op ops)
  from Cons.prems have "p \<in> set (student_certificates (foldl apply_doc (apply_doc d op) ops))"
    by simp
  then have "p \<in> set (student_certificates (apply_doc d op)) \<or> student_entry_from ops p"
    by (rule Cons.IH)
  then show ?case
  proof
    assume "p \<in> set (student_certificates (apply_doc d op))"
    then have "p \<in> set (student_certificates d) \<or> student_entry_from [op] p"
      by (rule student_entries_apply_doc)
    then show ?thesis
      by (auto intro: student_entry_from_mono)
  next
    assume "student_entry_from ops p"
    then have "student_entry_from (op # ops) p"
      by (rule student_entry_from_mono) auto
    then show ?thesis ..
  qed
qed

lemma record_school_certificate_Inr:
  assumes "load_data fs = Inr d"
  shows "record_school_certificate cert_id school_name region now fs =
    Inr (Holds (apply_doc d (RecordSchool cert_id school_name region now)))"
  using apply_operation_Inr [OF assms, of "RecordSchool cert_id school_name region now"]
  by simp

lemma record_student_certificate_Inr:
  assumes "load_data fs = Inr d"
  shows "record_student_certificate cert_id school_name now fs =
    Inr (Holds (apply_doc d (RecordStudent cert_id school_name now)))"
  using apply_operation_Inr [OF assms, of "RecordStudent cert_id school_name now"]
  by simp

lemma get_stats_totals:
  assumes "load_data fs = Inr d"
  shows "\<exists>st. get_stats fs = Inr st \<and>
    total_school_certificates st = total_school_certificates (stats d) \<and>
    total_student_certificates st = total_student_certificates (stats d)"
  by (simp add: get_stats_Inr [OF assms])

lemma school_step:
  assumes "counted d"
  shows "\<exists>d'. d' = apply_doc d (RecordSchool cert_id school_name region now) \<and> counted d' \<and>
    map_of (school_certificates d') cert_id =
      Some [(''school_name'', Some school_name), (''region'', region), (''date'', Some now)] \<and>
    (\<forall>k. k \<noteq> cert_id \<longrightarrow> map_of (school_certificates d') k = map_of (school_certificates d) k) \<and>
    total_school_certificates (stats d') =
      (if cert_id \<in> fst ` set (school_certificates d)
       then total_school_certificates (stats d) else total_school_certificates (stats d) + 1)"
proof -
  have c: "counted (apply_doc d (RecordSchool cert_id school_name region now))"
    using assms by (rule counted_apply_doc)
  from assms have "total_school_certificates (stats d) = int (length (school_certificates d))"
    by (simp add: counted_def)
  then show ?thesis
    using c by (simp add: AList.update_conv' length_update_distinct)
qed

lemma student_step:
  assumes "counted d"
  shows "\<exists>d'. d' = apply_doc d (RecordStudent cert_id school_name now) \<and> counted d' \<and>
    map_of (student_certificates d') cert_id =
      Some [(''school_name'', Some school_name), (''date'', Some now)] \<and>
    (\<forall>k. k \<noteq> cert_id \<longrightarrow> map_of (student_certificates d') k = map_of (student_certificates d) k) \<and>
    total_student_certificates (stats d') =
      (if cert_id \<in> fst ` set (student_certificates d)
       then total_student_certificates (stats d) else total_student_certificates (stats d) + 1)"
proof -
  have c: "counted (apply_doc d (RecordStudent cert_id school_name now))"
    using assms by (rule counted_apply_doc)
  from assms have "total_student_certificates (stats d) = int (length (student_certificates d))"
    by (simp add: counted_def)
  then show ?thesis
    using c by (simp add: AList.update_conv' length_update_distinct)
qed

lemma reachable:
  "\<exists>fs d. run Missing ops = Inr fs \<and> load_data fs = Inr d \<and> counted d \<and>
     fst ` set (school_certificates d) = set (school_ids ops) \<and>
     fst ` set (student_certificates d) = set (student_ids ops) \<and>
     (\<forall>p\<in>set (school_certificates d). school_entry_from ops p) \<and>
     (\<forall>p\<in>set (student_certificates d). student_entry_from ops p)"
proof -
  obtain fs where fs: "run Missing ops = Inr fs"
      "load_data fs = Inr (foldl apply_doc default_data ops)"
    using run_Inr [OF load_data_Missing] by blast
  have c: "counted (foldl apply_doc default_data ops)"
    using counted_default by (rule counted_foldl)
  have k1: "fst ` set (school_certificates (foldl apply_doc default_data ops)) = set (school_ids ops)"
    using school_keys_foldl [of default_data ops] by (simp add: default_data_def)
  have k2: "fst ` set (student_certificates (foldl apply_doc default_data ops)) = set (student_ids ops)"
    using student_keys_foldl [of default_data ops] by (simp add: default_data_def)
  have e1: "\<forall>p\<in>set (school_certificates (foldl apply_doc default_data ops)). school_entry_from ops p"
    using school_entries_foldl [of _ default_data ops] by (auto simp: default_data_def)
  have e2: "\<forall>p\<in>set (student_certificates (foldl apply_doc default_data ops)). student_entry_from ops p"
    using student_entries_foldl [of _ default_data ops] by (auto simp: default_data_def)
  from fs c k1 k2 e1 e2 show ?thesis by blast
qed

lemma run_example:
  "run Missing
     [RecordSchool ''ABC123'' ''Oak School'' (Some ''Wales'') ''2024-05-01T09:00:00'',
      RecordStudent ''GHI789'' ''Oak School'' ''2024-05-02T10:30:00''] =
   Inr (Holds
     \<lparr>school_certificates =
        [(''ABC123'', [(''school_name'', Some ''Oak School''), (''region'', Some ''Wales''),
                       (''date'', Some ''2024-05-01T09:00:00'')])],
      student_certificates =
        [(''GHI789'', [(''school_name'', Some ''Oak School''),
                       (''date'', Some ''2024-05-02T10:30:00'')])],
      stats = \<lparr>total_school_certificates = 1, total_student_certificates = 1\<rparr>\<rparr>)"
  by (simp add: record_school_certificate_def record_student_certificate_def load_data_def
        save_data_def default_data_def Let_def)

subsection \<open>Reading that raises\<close>




subsection \<open>The claims about the data store\<close>

text \<open>
  Claim C1, as stated, fails. It says that a School record whose region is absent or
  empty is counted under the key \<^verbatim>\<open>"Unknown"\<close>. After
  \<^verbatim>\<open>record_school_certificate("ABC123", "Oak School")\<close> on an empty store (the
  region is the default \<^verbatim>\<open>None\<close>), the \<^verbatim>\<open>countries\<close> of \<open>get_stats\<close> is
  the empty dict: the record is left out, and there is no \<^verbatim>\<open>"Unknown"\<close> key.
\<close>

theorem countries_unknown_counterexample:
  "record_school_certificate ''ABC123'' ''Oak School'' None ''2024-05-01T09:00:00'' Missing =
     Inr (Holds
       \<lparr>school_certificates =
          [(''ABC123'', [(''school_name'', Some ''Oak School''), (''region'', None),
                         (''date'', Some ''2024-05-01T09:00:00'')])],
        student_certificates = [],
        stats = \<lparr>total_school_certificates = 1, total_student_certificates = 0\<rparr>\<rparr>) \<and>
   get_stats (Holds
       \<lparr>school_certificates =
          [(''ABC123'', [(''school_name'', Some ''Oak School''), (''region'', None),
                         (''date'', Some ''2024-05-01T09:00:00'')])],
        student_certificates = [],
        stats = \<lparr>total_school_certificates = 1, total_student_certificates = 0\<rparr>\<rparr>) =
     Inr \<lparr>total_school_certificates = 1, total_student_certificates = 0,
          countries = [], country_percentages = [],
          regions = [(''England'', 0), (''Wales'', 0), (''Northern Ireland'', 0), (''Scotland'', 0)],
          region_percentages =
            [(''England'', RoundPct 0 1), (''Wales'', RoundPct 0 1),
             (''Northern Ireland'', RoundPct 0 1), (''Scotland'', RoundPct 0 1)]\<rparr>"
  by (simp add: record_school_certificate_def get_stats_def load_data_def save_data_def
        default_data_def Let_def count_country_def get_region_or_unknown_def count_region_def
        initial_region_counts_def)

text \<open>
  Claim C1, amended. For every document that \<^verbatim>\<open>_load_data\<close> returns,
  \<^verbatim>\<open>countries\<close> maps each non-empty string that is the region of some School record
  to the number of records with that region, where a record with no \<^verbatim>\<open>region\<close> field
  at all counts as region \<^verbatim>\<open>"Unknown"\<close>; it has no other key. A record whose region
  is \<^verbatim>\<open>None\<close> or the empty string is not counted.
\<close>

theorem countries_counts:
  assumes "load_data fs = Inr d"
  shows "\<exists>st. get_stats fs = Inr st \<and>
    (\<forall>country. map_of (countries st) country =
       (if country \<noteq> [] \<and>
           (\<exists>entry\<in>set (school_certificates d). get_region_or_unknown (snd entry) = Some country)
        then Some (int (length (filter
               (\<lambda>entry. get_region_or_unknown (snd entry) = Some country)
               (school_certificates d))))
        else None))"
proof -
  have pos: "(0 < entries_in country (school_certificates d)) =
      (\<exists>entry\<in>set (school_certificates d). get_region_or_unknown (snd entry) = Some country)"
    for country
    by (auto simp: entries_in_def filter_empty_conv)
  have "map_of (fold count_country (school_certificates d) []) country =
      (if country \<noteq> [] \<and>
           (\<exists>entry\<in>set (school_certificates d). get_region_or_unknown (snd entry) = Some country)
        then Some (int (length (filter
               (\<lambda>entry. get_region_or_unknown (snd entry) = Some country)
               (school_certificates d))))
        else None)" for country
    unfolding fold_count_country pos by (simp add: entries_in_def)
  then show ?thesis
    by (simp add: get_stats_Inr [OF assms])
qed

theorem countries_counts_witness:
  "load_data (Holds
      \<lparr>school_certificates =
         [(''A1'', [(''school_name'', Some ''Oak School''), (''region'', Some ''Wales''),
                    (''date'', Some ''2024-05-01T09:00:00'')]),
          (''A2'', [(''school_name'', Some ''Elm School''), (''region'', None),
                    (''date'', Some ''2024-05-01T09:05:00'')]),
          (''A3'', [(''school_name'', Some ''Ash School''), (''region'', Some ''''),
                    (''date'', Some ''2024-05-01T09:10:00'')]),
          (''A4'', [(''school_name'', Some ''Yew School''),
                    (''date'', Some ''2024-05-01T09:15:00'')])],
       student_certificates = [],
       stats = \<lparr>total_school_certificates = 4, total_student_certificates = 0\<rparr>\<rparr>) =
   Inr \<lparr>school_certificates =
         [(''A1'', [(''school_name'', Some ''Oak School''), (''region'', Some ''Wales''),
                    (''date'', Some ''2024-05-01T09:00:00'')]),
          (''A2'', [(''school_name'', Some ''Elm School''), (''region'', None),
                    (''date'', Some ''2024-05-01T09:05:00'')]),
          (''A3'', [(''school_name'', Some ''Ash School''), (''region'', Some ''''),
                    (''date'', Some ''2024-05-01T09:10:00'')]),
          (''A4'', [(''school_name'', Some ''Yew School''),
                    (''date'', Some ''2024-05-01T09:15:00'')])],
       student_certificates = [],
       stats = \<lparr>total_school_certificates = 4, total_student_certificates = 0\<rparr>\<rparr> \<and>
   (\<exists>st. get_stats (Holds
      \<lparr>school_certificates =
         [(''A1'', [(''school_name'', Some ''Oak School''), (''region'', Some ''Wales''),
                    (''date'', Some ''2024-05-01T09:00:00'')]),
          (''A2'', [(''school_name'', Some ''Elm School''), (''region'', None),
                    (''date'', Some ''2024-05-01T09:05:00'')]),
          (''A3'', [(''school_name'', Some ''Ash School''), (''region'', Some ''''),
                    (''date'', Some ''2024-05-01T09:10:00'')]),
          (''A4'', [(''school_name'', Some ''Yew School''),
                    (''date'', Some ''2024-05-01T09:15:00'')])],
       student_certificates = [],
       stats = \<lparr>total_school_certificates = 4, total_student_certificates = 0\<rparr>\<rparr>) = Inr st \<and>
     map_of (countries st) ''Wales'' = Some 1 \<and>
     map_of (countries st) ''Unknown'' = Some 1 \<and>
     map_of (countries st) '''' = None)"
proof -
  let ?d = "\<lparr>school_certificates =
         [(''A1'', [(''school_name'', Some ''Oak School''), (''region'', Some ''Wales''),
                    (''date'', Some ''2024-05-01T09:00:00'')]),
          (''A2'', [(''school_name'', Some ''Elm School''), (''region'', None),
                    (''date'', Some ''2024-05-01T09:05:00'')]),
          (''A3'', [(''school_name'', Some ''Ash School''), (''region'', Some ''''),
                    (''date'', Some ''2024-05-01T09:10:00'')]),
          (''A4'', [(''school_name'', Some ''Yew School''),
                    (''date'', Some ''2024-05-01T09:15:00'')])],
       student_certificates = [],
       stats = \<lparr>total_school_certificates = 4, total_student_certificates = 0\<rparr>\<rparr>"
  have h: "load_data (Holds ?d) = Inr ?d" by (rule load_data_Holds)
  obtain st where st: "get_stats (Holds ?d) = Inr st"
    and m: "\<forall>country. map_of (countries st) country =
       (if country \<noteq> [] \<and>
           (\<exists>entry\<in>set (school_certificates ?d). get_region_or_unknown (snd entry) = Some country)
        then Some (int (length (filter
               (\<lambda>entry. get_region_or_unknown (snd entry) = Some country)
               (school_certificates ?d))))
        else None)"
    using countries_counts [OF h] by (elim exE conjE) (rule that; assumption)
  have w: "map_of (countries st) ''Wales'' = Some 1"
    unfolding m [rule_format, of "''Wales''"] by (simp add: get_region_or_unknown_def)
  have u: "map_of (countries st) ''Unknown'' = Some 1"
    unfolding m [rule_format, of "''Unknown''"] by (simp add: get_region_or_unknown_def)
  have e: "map_of (countries st) '''' = None"
    unfolding m [rule_format, of "''''"] by simp
  from h st w u e show ?thesis by blast
qed



text \<open>
  Claim C3. After every sequence of recording calls on an empty store, the two totals
  that \<open>get_stats\<close> reports are the numbers of entries of the two mappings, which
  are the numbers of distinct ids recorded of each kind. One more recording call
  succeeds, stores the new record under its id, leaves the records of the other ids as
  they are, and leaves the total unchanged when the id was recorded before (it grows by
  one otherwise).
\<close>

theorem totals_count_distinct_ids:
  "\<exists>fs d st. run Missing ops = Inr fs \<and> load_data fs = Inr d \<and> get_stats fs = Inr st \<and>
     total_school_certificates st = int (length (school_certificates d)) \<and>
     total_student_certificates st = int (length (student_certificates d)) \<and>
     fst ` set (school_certificates d) = set (school_ids ops) \<and>
     fst ` set (student_certificates d) = set (student_ids ops) \<and>
     length (school_certificates d) = card (set (school_ids ops)) \<and>
     length (student_certificates d) = card (set (student_ids ops)) \<and>
     (\<forall>cert_id school_name region now. \<exists>fs' d' st'.
        record_school_certificate cert_id school_name region now fs = Inr fs' \<and>
        load_data fs' = Inr d' \<and> get_stats fs' = Inr st' \<and>
        map_of (school_certificates d') cert_id =
          Some [(''school_name'', Some school_name), (''region'', region), (''date'', Some now)] \<and>
        (\<forall>k. k \<noteq> cert_id \<longrightarrow>
           map_of (school_certificates d') k = map_of (school_certificates d) k) \<and>
        (cert_id \<in> set (school_ids ops) \<longrightarrow>
           total_school_certificates st' = total_school_certificates st) \<and>
        (cert_id \<notin> set (school_ids ops) \<longrightarrow>
           total_school_certificates st' = total_school_certificates st + 1)) \<and>
     (\<forall>cert_id school_name now. \<exists>fs' d' st'.
        record_student_certificate cert_id school_name now fs = Inr fs' \<and>
        load_data fs' = Inr d' \<and> get_stats fs' = Inr st' \<and>
        map_of (student_certificates d') cert_id =
          Some [(''school_name'', Some school_name), (''date'', Some now)] \<and>
        (\<forall>k. k \<noteq> cert_id \<longrightarrow>
           map_of (student_certificates d') k = map_of (student_certificates d) k) \<and>
        (cert_id \<in> set (student_ids ops) \<longrightarrow>
           total_student_certificates st' = total_student_certificates st) \<and>
        (cert_id \<notin> set (student_ids ops) \<longrightarrow>
           total_student_certificates st' = total_student_certificates st + 1))"
proof -
  obtain fs d where fs: "run Missing ops = Inr fs" and d: "load_data fs = Inr d"
    and c: "counted d"
    and k1: "fst ` set (school_certificates d) = set (school_ids ops)"
    and k2: "fst ` set (student_certificates d) = set (student_ids ops)"
    using reachable [of ops] by blast
  obtain st where st: "get_stats fs = Inr st"
    and t1: "total_school_certificates st = total_school_certificates (stats d)"
    and t2: "total_student_certificates st = total_student_certificates (stats d)"
    using get_stats_totals [OF d] by blast
  from c have n1: "total_school_certificates st = int (length (school_certificates d))"
    and n2: "total_student_certificates st = int (length (student_certificates d))"
    by (simp_all add: counted_def t1 t2)
  from c have "card (set (map fst (school_certificates d))) = length (map fst (school_certificates d))"
    by (intro distinct_card) (simp add: counted_def)
  with k1 have l1: "length (school_certificates d) = card (set (school_ids ops))"
    by simp
  from c have "card (set (map fst (student_certificates d))) = length (map fst (student_certificates d))"
    by (intro distinct_card) (simp add: counted_def)
  with k2 have l2: "length (student_certificates d) = card (set (student_ids ops))"
    by simp
  have school: "\<exists>fs' d' st'.
        record_school_certificate cert_id school_name region now fs = Inr fs' \<and>
        load_data fs' = Inr d' \<and> get_stats fs' = Inr st' \<and>
        map_of (school_certificates d') cert_id =
          Some [(''school_name'', Some school_name), (''region'', region), (''date'', Some now)] \<and>
        (\<forall>k. k \<noteq> cert_id \<longrightarrow>
           map_of (school_certificates d') k = map_of (school_certificates d) k) \<and>
        (cert_id \<in> set (school_ids ops) \<longrightarrow>
           total_school_certificates st' = total_school_certificates st) \<and>
        (cert_id \<notin> set (school_ids ops) \<longrightarrow>
           total_school_certificates st' = total_school_certificates st + 1)"
    for cert_id school_name region now
  proof -
    obtain d' where d': "d' = apply_doc d (RecordSchool cert_id school_name region now)"
      and m: "map_of (school_certificates d') cert_id =
        Some [(''school_name'', Some school_name), (''region'', region), (''date'', Some now)]"
      and o: "\<forall>k. k \<noteq> cert_id \<longrightarrow>
        map_of (school_certificates d') k = map_of (school_certificates d) k"
      and t: "total_school_certificates (stats d') =
        (if cert_id \<in> fst ` set (school_certificates d)
         then total_school_certificates (stats d) else total_school_certificates (stats d) + 1)"
      using school_step [OF c, of cert_id school_name region now] by blast
    have r: "record_school_certificate cert_id school_name region now fs = Inr (Holds d')"
      unfolding d' using d by (rule record_school_certificate_Inr)
    have l: "load_data (Holds d') = Inr d'" by (rule load_data_Holds)
    obtain st' where st': "get_stats (Holds d') = Inr st'"
      and t': "total_school_certificates st' = total_school_certificates (stats d')"
      using get_stats_totals [OF l] by blast
    from t t' t1 k1 have
      "(cert_id \<in> set (school_ids ops) \<longrightarrow>
           total_school_certificates st' = total_school_certificates st) \<and>
       (cert_id \<notin> set (school_ids ops) \<longrightarrow>
           total_school_certificates st' = total_school_certificates st + 1)"
      by simp
    with r l st' m o show ?thesis by blast
  qed
  have student: "\<exists>fs' d' st'.
        record_student_certificate cert_id school_name now fs = Inr fs' \<and>
        load_data fs' = Inr d' \<and> get_stats fs' = Inr st' \<and>
        map_of (student_certificates d') cert_id =
          Some [(''school_name'', Some school_name), (''date'', Some now)] \<and>
        (\<forall>k. k \<noteq> cert_id \<longrightarrow>
           map_of (student_certificates d') k = map_of (student_certificates d) k) \<and>
        (cert_id \<in> set (student_ids ops) \<longrightarrow>
           total_student_certificates st' = total_student_certificates st) \<and>
        (cert_id \<notin> set (student_ids ops) \<longrightarrow>
           total_student_certificates st' = total_student_certificates st + 1)"
    for cert_id school_name now
  proof -
    obtain d' where d': "d' = apply_doc d (RecordStudent cert_id school_name now)"
      and m: "map_of (student_certificates d') cert_id =
        Some [(''school_name'', Some school_name), (''date'', Some now)]"
      and o: "\<forall>k. k \<noteq> cert_id \<longrightarrow>
        map_of (student_certificates d') k = map_of (student_certificates d) k"
      and t: "total_student_certificates (stats d') =
        (if cert_id \<in> fst ` set (student_certificates d)
         then total_student_certificates (stats d) else total_student_certificates (stats d) + 1)"
      using student_step [OF c, of cert_id school_name now] by blast
    have r: "record_student_certificate cert_id school_name now fs = Inr (Holds d')"
      unfolding d' using d by (rule record_student_certificate_Inr)
    have l: "load_data (Holds d') = Inr d'" by (rule load_data_Holds)
    obtain st' where st': "get_stats (Holds d') = Inr st'"
      and t': "total_student_certificates st' = total_student_certificates (stats d')"
      using get_stats_totals [OF l] by blast
    from t t' t2 k2 have
      "(cert_id \<in> set (student_ids ops) \<longrightarrow>
           total_student_certificates st' = total_student_certificates st) \<and>
       (cert_id \<notin> set (student_ids ops) \<longrightarrow>
           total_student_certificates st' = total_student_certificates st + 1)"
      by simp
    with r l st' m o show ?thesis by blast
  qed
  from fs d st n1 n2 k1 k2 l1 l2 school student show ?thesis
    by blast
qed

theorem totals_count_distinct_ids_witness:
  "\<exists>fs st. run Missing
       [RecordSchool ''ABC123'' ''Oak School'' (Some ''Wales'') ''2024-05-01T09:00:00'',
        RecordSchool ''DEF456'' ''Elm School'' (Some ''England'') ''2024-05-01T09:05:00'',
        RecordSchool ''ABC123'' ''Oak Academy'' None ''2024-05-02T10:00:00'',
        RecordStudent ''GHI789'' ''Oak School'' ''2024-05-02T10:30:00''] = Inr fs \<and>
     get_stats fs = Inr st \<and>
     total_school_certificates st = 2 \<and> total_student_certificates st = 1 \<and>
     (\<exists>fs' st'. record_school_certificate ''DEF456'' ''Elm Academy'' None ''2024-05-03T08:00:00'' fs
          = Inr fs' \<and>
        get_stats fs' = Inr st' \<and> total_school_certificates st' = 2)"
proof -
  let ?ops = "[RecordSchool ''ABC123'' ''Oak School'' (Some ''Wales'') ''2024-05-01T09:00:00'',
        RecordSchool ''DEF456'' ''Elm School'' (Some ''England'') ''2024-05-01T09:05:00'',
        RecordSchool ''ABC123'' ''Oak Academy'' None ''2024-05-02T10:00:00'',
        RecordStudent ''GHI789'' ''Oak School'' ''2024-05-02T10:30:00'']"
  have ids: "set (school_ids ?ops) = {''ABC123'', ''DEF456''}" "set (student_ids ?ops) = {''GHI789''}"
    by auto
  have c1: "card (set (school_ids ?ops)) = 2" and c2: "card (set (student_ids ?ops)) = 1"
    unfolding ids by simp_all
  have m: "''DEF456'' \<in> set (school_ids ?ops)"
    unfolding ids by simp
  obtain fs d st where r: "run Missing ?ops = Inr fs" and st: "get_stats fs = Inr st"
    and d: "load_data fs = Inr d"
    and n1: "total_school_certificates st = int (length (school_certificates d))"
    and n2: "total_student_certificates st = int (length (student_certificates d))"
    and l1: "length (school_certificates d) = card (set (school_ids ?ops))"
    and l2: "length (student_certificates d) = card (set (student_ids ?ops))"
    and again: "\<forall>cert_id school_name region now. \<exists>fs' d' st'.
        record_school_certificate cert_id school_name region now fs = Inr fs' \<and>
        load_data fs' = Inr d' \<and> get_stats fs' = Inr st' \<and>
        map_of (school_certificates d') cert_id =
          Some [(''school_name'', Some school_name), (''region'', region), (''date'', Some now)] \<and>
        (\<forall>k. k \<noteq> cert_id \<longrightarrow>
           map_of (school_certificates d') k = map_of (school_certificates d) k) \<and>
        (cert_id \<in> set (school_ids ?ops) \<longrightarrow>
           total_school_certificates st' = total_school_certificates st) \<and>
        (cert_id \<notin> set (school_ids ?ops) \<longrightarrow>
           total_school_certificates st' = total_school_certificates st + 1)"
    using totals_count_distinct_ids [of ?ops] by (elim exE conjE) (rule that; assumption)
  from n1 l1 c1 have t1: "total_school_certificates st = 2" by simp
  from n2 l2 c2 have t2: "total_student_certificates st = 1" by simp
  from again m obtain fs' st' where
    "record_school_certificate ''DEF456'' ''Elm Academy'' None ''2024-05-03T08:00:00'' fs = Inr fs'"
    "get_stats fs' = Inr st'" "total_school_certificates st' = total_school_certificates st"
    by blast
  with r st t1 t2 show ?thesis by auto
qed




text \<open>
  Claim C9. After every sequence of recording calls on an empty store, every School
  record holds exactly the fields \<^verbatim>\<open>school_name\<close>, \<^verbatim>\<open>region\<close> and \<^verbatim>\<open>date\<close>
  and every Student record exactly \<^verbatim>\<open>school_name\<close> and \<^verbatim>\<open>date\<close>, with the
  values that a call of the sequence passed for that id. The calls take no teacher or
  student name: their arguments are the id, the school name and, for a school, the region.
\<close>

theorem records_hold_school_data_only:
  "\<exists>fs d. run Missing ops = Inr fs \<and> load_data fs = Inr d \<and>
     (\<forall>(cert_id, entry)\<in>set (school_certificates d).
        map fst entry = [''school_name'', ''region'', ''date''] \<and>
        (\<exists>school_name region now.
           RecordSchool cert_id school_name region now \<in> set ops \<and>
           entry = [(''school_name'', Some school_name), (''region'', region), (''date'', Some now)])) \<and>
     (\<forall>(cert_id, entry)\<in>set (student_certificates d).
        map fst entry = [''school_name'', ''date''] \<and>
        (\<exists>school_name now.
           RecordStudent cert_id school_name now \<in> set ops \<and>
           entry = [(''school_name'', Some school_name), (''date'', Some now)]))"
proof -
  obtain fs d where fs: "run Missing ops = Inr fs" and d: "load_data fs = Inr d"
    and e1: "\<forall>p\<in>set (school_certificates d). school_entry_from ops p"
    and e2: "\<forall>p\<in>set (student_certificates d). student_entry_from ops p"
    using reachable [of ops] by blast
  have s1: "\<forall>(cert_id, entry)\<in>set (school_certificates d).
        map fst entry = [''school_name'', ''region'', ''date''] \<and>
        (\<exists>school_name region now.
           RecordSchool cert_id school_name region now \<in> set ops \<and>
           entry = [(''school_name'', Some school_name), (''region'', region), (''date'', Some now)])"
    using e1 unfolding school_entry_from_def by fastforce
  have s2: "\<forall>(cert_id, entry)\<in>set (student_certificates d).
        map fst entry = [''school_name'', ''date''] \<and>
        (\<exists>school_name now.
           RecordStudent cert_id school_name now \<in> set ops \<and>
           entry = [(''school_name'', Some school_name), (''date'', Some now)])"
    using e2 unfolding student_entry_from_def by fastforce
  from fs d s1 s2 show ?thesis by blast
qed

theorem records_hold_school_data_only_witness:
  "\<exists>fs d. run Missing
       [RecordSchool ''ABC123'' ''Oak School'' (Some ''Wales'') ''2024-05-01T09:00:00'',
        RecordStudent ''GHI789'' ''Oak School'' ''2024-05-02T10:30:00''] = Inr fs \<and>
     load_data fs = Inr d \<and>
     school_certificates d \<noteq> [] \<and> student_certificates d \<noteq> [] \<and>
     (\<forall>(cert_id, entry)\<in>set (school_certificates d).
        map fst entry = [''school_name'', ''region'', ''date'']) \<and>
     (\<forall>(cert_id, entry)\<in>set (student_certificates d).
        map fst entry = [''school_name'', ''date''])"
proof -
  let ?ops = "[RecordSchool ''ABC123'' ''Oak School'' (Some ''Wales'') ''2024-05-01T09:00:00'',
        RecordStudent ''GHI789'' ''Oak School'' ''2024-05-02T10:30:00'']"
  obtain fs d where fs: "run Missing ?ops = Inr fs" and d: "load_data fs = Inr d"
    and s1: "\<forall>(cert_id, entry)\<in>set (school_certificates d).
        map fst entry = [''school_name'', ''region'', ''date''] \<and>
        (\<exists>school_name region now.
           RecordSchool cert_id school_name region now \<in> set ?ops \<and>
           entry = [(''school_name'', Some school_name), (''region'', region), (''date'', Some now)])"
    and s2: "\<forall>(cert_id, entry)\<in>set (student_certificates d).
        map fst entry = [''school_name'', ''date''] \<and>
        (\<exists>school_name now.
           RecordStudent cert_id school_name now \<in> set ?ops \<and>
           entry = [(''school_name'', Some school_name), (''date'', Some now)])"
    using records_hold_school_data_only [of ?ops] by blast
  from fs d have ne: "school_certificates d \<noteq> [] \<and> student_certificates d \<noteq> []"
    unfolding run_example by (auto simp: load_data_def)
  from s1 have s1': "\<forall>(cert_id, entry)\<in>set (school_certificates d).
        map fst entry = [''school_name'', ''region'', ''date'']"
    by fast
  from s2 have s2': "\<forall>(cert_id, entry)\<in>set (student_certificates d).
        map fst entry = [''school_name'', ''date'']"
    by fast
  from fs d ne s1' s2' show ?thesis by blast
qed

end
